theory Spec2Isabelle
  imports Main "HOL-Library.AList" "HOL-Library.Char_ord" "HOL-Library.List_Lexorder"
begin

section \<open>The whatrecord frontend stores (frontend/src/store.js)\<close>

text \<open>
  The file declares two Vuex stores with the same query surface: \<open>remote_store\<close> asks the
  server once per query, \<open>cached_local_store\<close> downloads one snapshot document and scans
  it.  A store is a state object, mutations that update it, and asynchronous actions that
  read the state, commit mutations and return a value.

  The embedding is sequential: an action is a function from the state at its entry to the
  state at its exit, the list of HTTP requests it has issued, and its outcome, which is
  either the value it returns or the error it raises.  What the network answers is a
  parameter of the action.  Actions that run interleaved are not modelled; what another
  action in flight has done so far is part of the state an action starts from.

  A JavaScript object used as a dictionary is an association list of its own properties.
  Besides them it has the members that every object inherits from \<open>Object.prototype\<close>
  (\<open>constructor\<close>, \<open>toString\<close>, ...): \<open>k in obj\<close> is true and \<open>obj[k]\<close> is that
  member when \<open>k\<close> is such a name and no own property.  The dictionaries of the snapshot
  are listed in the order in which the engine enumerates them (\<open>Object.keys\<close>,
  \<open>Object.values\<close>, \<open>Object.entries\<close>).  In a dictionary that a store builds, a new
  property goes to the end; the engine would enumerate a property named like an array
  index before the others, and nothing below depends on where a property stands in such
  a dictionary.
\<close>

subsection \<open>Values, errors, requests\<close>

text \<open>
  The values of JSON, \<open>undefined\<close>, and \<open>Inherited k\<close>: the member \<open>k\<close> of
  \<open>Object.prototype\<close>, which is a function, or for \<open>__proto__\<close> the prototype object
  itself.
\<close>

datatype jv =
  Undefined | Null | Bool bool | Num int | Str string | Arr "jv list" | Obj "(string \<times> jv) list"
  | Inherited string

datatype js_error = TypeError | ReferenceError | SyntaxError | NetworkError

text \<open>\<open>v == null\<close> holds of \<open>null\<close> and \<open>undefined\<close> only.\<close>

definition nullish :: "jv \<Rightarrow> bool" where
  "nullish v \<longleftrightarrow> v = Undefined \<or> v = Null"

text \<open>What \<open>if (v)\<close> and \<open>v || d\<close> test.\<close>

fun truthy :: "jv \<Rightarrow> bool" where
  "truthy Undefined = False"
| "truthy Null = False"
| "truthy (Bool b) = b"
| "truthy (Num n) = (n \<noteq> 0)"
| "truthy (Str s) = (s \<noteq> [])"
| "truthy (Arr xs) = True"
| "truthy (Obj kvs) = True"
| "truthy (Inherited k) = True"

text \<open>
  \<open>v.k\<close> for the fixed property names the stores read (\<open>matches\<close>, \<open>script\<close>,
  \<open>lines\<close>): reading a property of \<open>undefined\<close> or \<open>null\<close> raises a TypeError, an
  object yields its property or \<open>undefined\<close>, and no other value has a property of
  these names, own or inherited.
\<close>

fun get_field :: "jv \<Rightarrow> string \<Rightarrow> js_error + jv" where
  "get_field Undefined k = Inl TypeError"
| "get_field Null k = Inl TypeError"
| "get_field (Obj kvs) k = Inr (case map_of kvs k of None \<Rightarrow> Undefined | Some v \<Rightarrow> v)"
| "get_field v k = Inr Undefined"

text \<open>\<open>v?.k\<close>: \<open>undefined\<close> when \<open>v\<close> is \<open>undefined\<close> or \<open>null\<close>.\<close>

definition get_field_opt :: "jv \<Rightarrow> string \<Rightarrow> jv" where
  "get_field_opt v k = (case get_field v k of Inl e \<Rightarrow> Undefined | Inr x \<Rightarrow> x)"

text \<open>
  The property names of \<open>Object.prototype\<close>: those of the language standard and of its
  annex for web browsers.  Every dictionary below is created as \<open>{}\<close> or by
  \<open>JSON.parse\<close> and inherits them.
\<close>

definition object_prototype_names :: "string list" where
  "object_prototype_names =
     [''constructor'', ''__defineGetter__'', ''__defineSetter__'', ''hasOwnProperty'',
      ''__lookupGetter__'', ''__lookupSetter__'', ''isPrototypeOf'', ''propertyIsEnumerable'',
      ''toString'', ''valueOf'', ''__proto__'', ''toLocaleString'']"

definition inherited :: "string \<Rightarrow> bool" where
  "inherited k \<longleftrightarrow> k \<in> set object_prototype_names"

text \<open>\<open>k in obj\<close>: an own property or an inherited member.\<close>

definition has_key :: "string \<Rightarrow> (string \<times> 'a) list \<Rightarrow> bool" where
  "has_key k obj \<longleftrightarrow> k \<in> set (map fst obj) \<or> inherited k"

text \<open>
  What an action returns, where the values it means to return have the type \<open>'a\<close>:
  such a value, an inherited member (read from a dictionary under its name), or
  \<open>undefined\<close>.
\<close>

datatype 'a returned = Value 'a | Inherited_member string | Nothing

text \<open>\<open>obj[k]\<close>: the own property, else the inherited member, else \<open>undefined\<close>.\<close>

definition get_member :: "string \<Rightarrow> (string \<times> 'a) list \<Rightarrow> 'a returned" where
  "get_member k obj =
     (case map_of obj k of
        Some v \<Rightarrow> Value v
      | None \<Rightarrow> if inherited k then Inherited_member k else Nothing)"

definition get_value :: "string \<Rightarrow> (string \<times> jv) list \<Rightarrow> jv" where
  "get_value k obj =
     (case map_of obj k of
        Some v \<Rightarrow> v
      | None \<Rightarrow> if inherited k then Inherited k else Undefined)"

text \<open>
  \<open>obj[k] = v\<close> replaces the value of an existing property in place and appends a new
  one.  Under the name \<open>__proto__\<close> it creates no property: it hands \<open>v\<close> to the
  inherited setter, which replaces what the object inherits.  That is not followed up
  here: the assignments into \<open>glob_to_pvs\<close>, \<open>regex_to_pvs\<close>, \<open>file_info\<close>, the
  snapshot store's \<open>record_info\<close> and \<open>dupes\<close> are reached only after \<open>k in obj\<close> was
  false, hence never with that name.
\<close>

definition assign :: "string \<Rightarrow> 'a \<Rightarrow> (string \<times> 'a) list \<Rightarrow> (string \<times> 'a) list" where
  "assign k v obj = (if k = ''__proto__'' then obj else AList.update k v obj)"

record request =
  url :: string
  params :: "(string \<times> jv) list"

subsection \<open>The snapshot document\<close>

text \<open>
  The document served as \<open>/cache.json.gz\<close>.  The stores read
  \<open>cache.iocs[name].md\<close>, \<open>cache.iocs[name].ioc.shell_state.database\<close>,
  \<open>.pva_database\<close> and \<open>.database_definition?.record_types\<close>, the
  \<open>record_type\<close> of a database record, and \<open>cache.files[path]\<close>.  The object
  \<open>{}\<close> that a failed download yields has neither \<open>iocs\<close> nor \<open>files\<close>, so
  both are optional here.  Below these two keys the document is taken to have the shape
  the stores read; metadata, PVA groups, record type definitions and file entries are
  plain values.
\<close>

record record_instance =
  record_type :: string
  instance_data :: jv

record database_definition =
  record_types :: "(string \<times> jv) list"

record shell_state =
  database :: "(string \<times> record_instance) list"
  pva_database :: "(string \<times> jv) list"
  database_definition :: "database_definition option"

record ioc_document =
  shell_state :: shell_state

record ioc_entry =
  md :: jv
  ioc :: ioc_document

record snapshot =
  iocs :: "(string \<times> ioc_entry) list option"
  files :: "(string \<times> jv) list option"

definition empty_snapshot :: snapshot where
  "empty_snapshot = \<lparr>iocs = None, files = None\<rparr>"

subsection \<open>The query counter\<close>

text \<open>
  Both stores hold \<open>queries_in_progress\<close> and \<open>query_in_progress\<close> and declare the
  same two mutations on them, so the two fields are the common root of both state
  records.  The counter is a JavaScript number that only ever changes by one; it is an
  integer here.
\<close>

record query_state =
  queries_in_progress :: int
  query_in_progress :: bool

definition start_query :: "'a query_state_scheme \<Rightarrow> 'a query_state_scheme" where
  "start_query state =
     state\<lparr>queries_in_progress := queries_in_progress state + 1, query_in_progress := True\<rparr>"

definition end_query :: "'a query_state_scheme \<Rightarrow> 'a query_state_scheme" where
  "end_query state =
     (let state1 = (if queries_in_progress state > 0
                    then state\<lparr>queries_in_progress := queries_in_progress state - 1\<rparr>
                    else state)
      in if queries_in_progress state1 = 0 then state1\<lparr>query_in_progress := False\<rparr>
         else state1)"

datatype query_mutation = Start_query | End_query

fun apply_mutation :: "query_mutation \<Rightarrow> 'a query_state_scheme \<Rightarrow> 'a query_state_scheme" where
  "apply_mutation Start_query state = start_query state"
| "apply_mutation End_query state = end_query state"

definition apply_mutations ::
  "query_mutation list \<Rightarrow> 'a query_state_scheme \<Rightarrow> 'a query_state_scheme" where
  "apply_mutations ms state = fold apply_mutation ms state"

text \<open>The counter fields of a freshly created store: \<open>0\<close> and \<open>false\<close>.\<close>

definition fresh_query_state :: "'a query_state_scheme \<Rightarrow> bool" where
  "fresh_query_state state \<longleftrightarrow> queries_in_progress state = 0 \<and> \<not> query_in_progress state"

definition query_invariant :: "'a query_state_scheme \<Rightarrow> bool" where
  "query_invariant state \<longleftrightarrow>
     0 \<le> queries_in_progress state \<and>
     (query_in_progress state \<longleftrightarrow> 0 < queries_in_progress state)"

subsection \<open>State of the two stores\<close>

text \<open>The remote store keeps what the server sent, undecoded.\<close>

record remote_state = query_state +
  duplicates :: jv
  file_info :: "(string \<times> jv) list"
  gateway_info :: jv
  glob_to_pvs :: "(string \<times> jv) list"
  ioc_info :: jv
  ioc_to_records :: "(string \<times> jv) list"
  plugin_info :: "(string \<times> jv) list"
  plugin_nested_info :: "(string \<times> jv) list"
  pv_relations :: jv
  record_info :: "(string \<times> jv) list"
  regex_to_pvs :: "(string \<times> jv) list"

definition remote_initial :: remote_state where
  "remote_initial =
     \<lparr>queries_in_progress = 0, query_in_progress = False,
      duplicates = Obj [], file_info = [], gateway_info = Null, glob_to_pvs = [],
      ioc_info = Arr [], ioc_to_records = [], plugin_info = [], plugin_nested_info = [],
      pv_relations = Obj [], record_info = [], regex_to_pvs = []\<rparr>"

text \<open>
  The per-PV answer the snapshot store builds:
  \<open>{pv_name, present, info: [{name, ioc, record: {definition, instance}, pva_group}]}\<close>.
\<close>

record record_view =
  definition_of :: jv
  instance_of :: "record_instance option"

record whatrec =
  name :: string
  ioc_md :: jv
  record_of :: record_view
  pva_group :: jv

record pv_result =
  pv_name :: string
  present :: bool
  info :: "whatrec list"

datatype ioc_record = Traditional record_instance | Group jv

record cached_state = query_state +
  cache :: "snapshot option"
  file_stream :: jv
  duplicates :: "(string \<times> string list) list"
  file_info :: "(string \<times> jv) list"
  gateway_info :: jv
  glob_to_pvs :: "(string \<times> string list) list"
  ioc_info :: "jv list"
  ioc_to_records :: "(string \<times> ioc_record list) list"
  plugin_info :: "(string \<times> jv) list"
  plugin_nested_info :: "(string \<times> jv) list"
  pv_relations :: jv
  record_info :: "(string \<times> pv_result) list"
  regex_to_pvs :: "(string \<times> string list) list"

definition cached_initial :: cached_state where
  "cached_initial =
     \<lparr>queries_in_progress = 0, query_in_progress = False,
      cache = None, file_stream = Null,
      duplicates = [], file_info = [], gateway_info = Null, glob_to_pvs = [],
      ioc_info = [], ioc_to_records = [], plugin_info = [], plugin_nested_info = [],
      pv_relations = Obj [], record_info = [], regex_to_pvs = []\<rparr>"

subsection \<open>Mutations\<close>

definition remote_add_record_search_results ::
  "string \<Rightarrow> jv \<Rightarrow> bool \<Rightarrow> remote_state \<Rightarrow> remote_state" where
  "remote_add_record_search_results pattern pv_list regex state =
     (if regex
      then state\<lparr>remote_state.regex_to_pvs :=
                   assign pattern pv_list (remote_state.regex_to_pvs state)\<rparr>
      else state\<lparr>remote_state.glob_to_pvs :=
                   assign pattern pv_list (remote_state.glob_to_pvs state)\<rparr>)"

definition remote_add_record_info :: "string \<Rightarrow> jv \<Rightarrow> remote_state \<Rightarrow> remote_state" where
  "remote_add_record_info record entry state =
     state\<lparr>remote_state.record_info := assign record entry (remote_state.record_info state)\<rparr>"

definition add_record_search_results ::
  "string \<Rightarrow> string list \<Rightarrow> bool \<Rightarrow> cached_state \<Rightarrow> cached_state" where
  "add_record_search_results pattern pv_list regex state =
     (if regex
      then state\<lparr>regex_to_pvs := assign pattern pv_list (regex_to_pvs state)\<rparr>
      else state\<lparr>glob_to_pvs := assign pattern pv_list (glob_to_pvs state)\<rparr>)"

definition set_cache :: "snapshot \<Rightarrow> cached_state \<Rightarrow> cached_state" where
  "set_cache c state = state\<lparr>cache := Some c\<rparr>"

definition set_duplicates :: "(string \<times> string list) list \<Rightarrow> cached_state \<Rightarrow> cached_state" where
  "set_duplicates dupes state = state\<lparr>duplicates := dupes\<rparr>"

definition set_file_info :: "string \<Rightarrow> jv \<Rightarrow> cached_state \<Rightarrow> cached_state" where
  "set_file_info filename entry state =
     state\<lparr>file_info := assign filename entry (file_info state)\<rparr>"

definition set_ioc_info :: "jv list \<Rightarrow> cached_state \<Rightarrow> cached_state" where
  "set_ioc_info entries state = state\<lparr>ioc_info := entries\<rparr>"

definition add_record_info :: "string \<Rightarrow> pv_result \<Rightarrow> cached_state \<Rightarrow> cached_state" where
  "add_record_info record entry state =
     state\<lparr>record_info := assign record entry (record_info state)\<rparr>"

definition set_ioc_records :: "string \<Rightarrow> ioc_record list \<Rightarrow> cached_state \<Rightarrow> cached_state" where
  "set_ioc_records ioc_name records state =
     state\<lparr>ioc_to_records := assign ioc_name records (ioc_to_records state)\<rparr>"

subsection \<open>Actions of the remote store\<close>

text \<open>
  \<open>net\<close> is what \<open>axios.get\<close> resolves to for a request: the decoded body
  \<open>response.data\<close>, or the error it rejects with.  A pattern is a string or absent
  (\<open>null\<close> or \<open>undefined\<close>, here \<open>None\<close>).
\<close>

definition remote_find_record_matches ::
  "(request \<Rightarrow> js_error + jv) \<Rightarrow> string option \<Rightarrow> jv \<Rightarrow> bool \<Rightarrow> remote_state
     \<Rightarrow> remote_state \<times> request list \<times> (js_error + jv)" where
  "remote_find_record_matches net pattern max_pvs regex state =
     (case pattern of
        None \<Rightarrow> (state, [], Inr Undefined)
      | Some p \<Rightarrow>
          if \<not> regex \<and> has_key p (remote_state.glob_to_pvs state)
          then (state, [], Inr (get_value p (remote_state.glob_to_pvs state)))
          else if regex \<and> has_key p (remote_state.regex_to_pvs state)
          then (state, [], Inr (get_value p (remote_state.regex_to_pvs state)))
          else
            let state1 = start_query state;
                query_pattern = (if p \<noteq> [] then p else if regex then ''.*'' else ''*'');
                req = \<lparr>url = ''/api/pv/matches'',
                       params = [(''pattern'', Str query_pattern), (''max'', max_pvs),
                                 (''regex'', Bool regex)]\<rparr>
            in case net req of
                 Inl error \<Rightarrow> (end_query state1, [req], Inr Undefined)
               | Inr data \<Rightarrow>
                   (case get_field data ''matches'' of
                      Inl error \<Rightarrow> (end_query state1, [req], Inr Undefined)
                    | Inr matches \<Rightarrow>
                        (end_query (remote_add_record_search_results p matches regex state1),
                         [req], Inr matches)))"

text \<open>
  \<open>Object.entries\<close> of a response body.  An array or a string lists its elements under
  their decimal indices.
\<close>

function decimal :: "nat \<Rightarrow> string" where
  "decimal n = (if n < 10 then [char_of (48 + n)]
                else decimal (n div 10) @ [char_of (48 + n mod 10)])"
  by pat_completeness auto
termination
  by (relation "measure (\<lambda>n. n)") auto

definition indexed :: "'a list \<Rightarrow> (string \<times> 'a) list" where
  "indexed xs = zip (map decimal [0..<length xs]) xs"

fun object_entries :: "jv \<Rightarrow> js_error + (string \<times> jv) list" where
  "object_entries Undefined = Inl TypeError"
| "object_entries Null = Inl TypeError"
| "object_entries (Obj kvs) = Inr kvs"
| "object_entries (Arr xs) = Inr (indexed xs)"
| "object_entries (Str s) = Inr (indexed (map (\<lambda>c. Str [c]) s))"
| "object_entries v = Inr []"

text \<open>
  The remote \<open>get_record_info\<close> is declared with the single parameter \<open>context\<close>, so
  the \<open>record_name\<close> it reads is not bound by the action and not by the module either:
  it is looked up on the global object.  \<open>global_record_name\<close> is the string that
  lookup yields, or \<open>None\<close> when the global object has no such property, in which case
  reading the identifier raises a ReferenceError, before the \<open>try\<close> is entered.
\<close>

definition remote_get_record_info ::
  "string option \<Rightarrow> (request \<Rightarrow> js_error + jv) \<Rightarrow> remote_state
     \<Rightarrow> remote_state \<times> request list \<times> (js_error + jv)" where
  "remote_get_record_info global_record_name net state =
     (case global_record_name of
        None \<Rightarrow> (state, [], Inl ReferenceError)
      | Some record_name \<Rightarrow>
          if has_key record_name (remote_state.record_info state)
          then (state, [], Inr (get_value record_name (remote_state.record_info state)))
          else
            let state1 = start_query state;
                req = \<lparr>url = ''/api/pv/info'', params = [(''pv'', Str record_name)]\<rparr>
            in case net req of
                 Inl error \<Rightarrow> (end_query state1, [req], Inr Undefined)
               | Inr data \<Rightarrow>
                   (case object_entries data of
                      Inl error \<Rightarrow> (end_query state1, [req], Inr Undefined)
                    | Inr entries \<Rightarrow>
                        (end_query
                           (fold (\<lambda>(rec, rec_info). remote_add_record_info rec rec_info)
                              entries state1),
                         [req], Inr data)))"

subsection \<open>Actions of the snapshot store\<close>

definition cache_request :: request where
  "cache_request = \<lparr>url = ''/cache.json.gz'', params = []\<rparr>"

text \<open>
  \<open>fetch\<close> is what the download of the snapshot resolves to.  The action never raises:
  a failed download is logged and answered with \<open>{}\<close>, and nothing is stored.
\<close>

definition load_cached_whatrecord_data ::
  "(js_error + snapshot) \<Rightarrow> cached_state \<Rightarrow> cached_state \<times> request list \<times> snapshot" where
  "load_cached_whatrecord_data fetch state =
     (case cache state of
        Some c \<Rightarrow> (state, [], c)
      | None \<Rightarrow>
          let state1 = start_query state
          in case fetch of
               Inr data \<Rightarrow> (end_query (set_cache data state1), [cache_request], data)
             | Inl error \<Rightarrow> (end_query state1, [cache_request], empty_snapshot))"

text \<open>\<open>Object.values(cache.iocs)\<close> raises a TypeError when \<open>cache.iocs\<close> is undefined.\<close>

definition update_ioc_info ::
  "(js_error + snapshot) \<Rightarrow> cached_state
     \<Rightarrow> cached_state \<times> request list \<times> (js_error + jv list returned)" where
  "update_ioc_info fetch state =
     (if length (ioc_info state) > 0 then (state, [], Inr (Value (ioc_info state)))
      else
        case load_cached_whatrecord_data fetch state of
          (state1, requests, c) \<Rightarrow>
            (case iocs c of
               None \<Rightarrow> (state1, requests, Inl TypeError)
             | Some entries \<Rightarrow>
                 (set_ioc_info (map (\<lambda>ioc. md ioc) (map snd entries)) state1, requests,
                  Inr Nothing)))"

text \<open>
  \<open>ioc.shell_state.database_definition?.record_types[v3_record.record_type] ?? null\<close>.
  The lookup in \<open>record_types\<close> finds an own property or an inherited member.
\<close>

definition record_type_definition :: "shell_state \<Rightarrow> record_instance \<Rightarrow> jv" where
  "record_type_definition ss v3_record =
     (case database_definition ss of
        None \<Rightarrow> Null
      | Some dbd \<Rightarrow>
          (let d = get_value (record_type v3_record) (record_types dbd)
           in if nullish d then Null else d))"

definition v3_info :: "string \<Rightarrow> ioc_entry \<Rightarrow> record_instance \<Rightarrow> pv_result" where
  "v3_info record_name an_ioc v3_record =
     \<lparr>pv_name = record_name, present = True,
      info = [\<lparr>name = record_name, ioc_md = md an_ioc,
               record_of = \<lparr>definition_of =
                              record_type_definition (shell_state (ioc an_ioc)) v3_record,
                            instance_of = Some v3_record\<rparr>,
               pva_group = Null\<rparr>]\<rparr>"

definition v4_info :: "string \<Rightarrow> ioc_entry \<Rightarrow> jv \<Rightarrow> pv_result" where
  "v4_info record_name an_ioc v4_record =
     \<lparr>pv_name = record_name, present = True,
      info = [\<lparr>name = record_name, ioc_md = md an_ioc,
               record_of = \<lparr>definition_of = Null, instance_of = None\<rparr>,
               pva_group = v4_record\<rparr>]\<rparr>"

text \<open>
  One round of the loop of \<open>get_record_info\<close> over \<open>Object.values(cache.iocs)\<close>.  The
  loop is entered only after \<open>record_name in context.state.record_info\<close> was false, so
  \<open>record_name\<close> is not the name of an inherited member, and
  \<open>database[record_name]\<close> and \<open>pva_database[record_name]\<close> can only be own
  properties.
\<close>

definition scan_ioc :: "string \<Rightarrow> ioc_entry \<Rightarrow> cached_state \<Rightarrow> cached_state" where
  "scan_ioc record_name an_ioc state =
     (let ss = shell_state (ioc an_ioc);
          state1 = (case map_of (database ss) record_name of
                      None \<Rightarrow> state
                    | Some v3_record \<Rightarrow>
                        add_record_info record_name (v3_info record_name an_ioc v3_record) state)
      in case map_of (pva_database ss) record_name of
           None \<Rightarrow> state1
         | Some v4_record \<Rightarrow>
             if nullish v4_record then state1
             else add_record_info record_name (v4_info record_name an_ioc v4_record) state1)"

definition get_record_info ::
  "(js_error + snapshot) \<Rightarrow> string \<Rightarrow> cached_state
     \<Rightarrow> cached_state \<times> request list \<times> (js_error + pv_result returned)" where
  "get_record_info fetch record_name state =
     (if has_key record_name (record_info state)
      then (state, [], Inr (get_member record_name (record_info state)))
      else
        case load_cached_whatrecord_data fetch state of
          (state1, requests, c) \<Rightarrow>
            (case iocs c of
               None \<Rightarrow> (state1, requests, Inl TypeError)
             | Some entries \<Rightarrow>
                 (fold (scan_ioc record_name) (map snd entries) state1, requests,
                  Inr Nothing)))"

text \<open>
  \<open>cache.iocs[ioc_name].ioc.shell_state\<close> raises a TypeError when \<open>cache.iocs\<close> is
  undefined and when it has no own property \<open>ioc_name\<close>: \<open>cache.iocs[ioc_name]\<close> is
  then undefined or an inherited member, and neither has an \<open>ioc\<close>.
\<close>

definition get_ioc_records ::
  "(js_error + snapshot) \<Rightarrow> string \<Rightarrow> cached_state
     \<Rightarrow> cached_state \<times> request list \<times> (js_error + ioc_record list)" where
  "get_ioc_records fetch ioc_name state =
     (case load_cached_whatrecord_data fetch state of
        (state1, requests, c) \<Rightarrow>
          (case iocs c of
             None \<Rightarrow> (state1, requests, Inl TypeError)
           | Some entries \<Rightarrow>
               (case map_of entries ioc_name of
                  None \<Rightarrow> (state1, requests, Inl TypeError)
                | Some an_ioc \<Rightarrow>
                    let v3_records = map (\<lambda>kv. Traditional (snd kv))
                                       (database (shell_state (ioc an_ioc)));
                        v4_records = map (\<lambda>kv. Group (snd kv))
                                       (pva_database (shell_state (ioc an_ioc)));
                        records = v3_records @ v4_records
                    in (set_ioc_records ioc_name records state1, requests, Inr records))))"

text \<open>
  \<open>get_file_info\<close>: \<open>cache.files[filename]\<close> raises a TypeError when \<open>cache.files\<close>
  is undefined; \<open>cached_file_info.lines.map\<close> is a function only when \<open>lines\<close> is an
  array.  The lookup is reached only after \<open>filename in context.state.file_info\<close> was
  false, so it can only find an own property.
\<close>

definition line_by_line_info :: "string \<Rightarrow> jv list \<Rightarrow> jv list" where
  "line_by_line_info filename lns =
     map (\<lambda>(lineno, line).
            Obj [(''context'', Arr [Arr [Str filename, Num (int lineno + 1)]]),
                 (''line'', line)])
         (zip [0..<length lns] lns)"

definition get_file_info ::
  "(js_error + snapshot) \<Rightarrow> string \<Rightarrow> cached_state
     \<Rightarrow> cached_state \<times> request list \<times> (js_error + jv)" where
  "get_file_info fetch filename state =
     (if has_key filename (file_info state)
      then (state, [], Inr (get_value filename (file_info state)))
      else
        case load_cached_whatrecord_data fetch state of
          (state1, requests, c) \<Rightarrow>
            (case files c of
               None \<Rightarrow> (state1, requests, Inl TypeError)
             | Some fs \<Rightarrow>
                 let cached_file_info =
                       (case map_of fs filename of None \<Rightarrow> Undefined | Some v \<Rightarrow> v)
                 in if truthy (get_field_opt cached_file_info ''script'')
                    then (set_file_info filename cached_file_info state1, requests,
                          Inr Undefined)
                    else if truthy (get_field_opt cached_file_info ''lines'')
                    then (case get_field_opt cached_file_info ''lines'' of
                            Arr lns \<Rightarrow>
                              let script = Obj [(''path'', Str filename),
                                                (''lines'', Arr (line_by_line_info filename lns))]
                              in (set_file_info filename
                                    (Obj [(''script'', script), (''ioc'', Null)]) state1,
                                  requests, Inr Undefined)
                          | _ \<Rightarrow> (state1, requests, Inl TypeError))
                    else (state1, requests, Inr Undefined)))"

text \<open>
  \<open>update_duplicates\<close>.  \<open>push_owner\<close> is the body of both inner loops:
  \<open>if (pvname in dupes === false) dupes[pvname] = []; dupes[pvname].push(iocname)\<close>.
  For a PV name that is an inherited member and no own property yet, \<open>pvname in dupes\<close>
  is true, no list is created, \<open>dupes[pvname]\<close> is the inherited member, which has no
  \<open>push\<close>, and the call raises a TypeError.
\<close>

definition push_owner ::
  "string \<Rightarrow> string \<Rightarrow> (string \<times> string list) list
     \<Rightarrow> js_error + (string \<times> string list) list" where
  "push_owner iocname pvname dupes =
     (let dupes1 = (if \<not> has_key pvname dupes then assign pvname [] dupes else dupes)
      in case get_member pvname dupes1 of
           Value owners \<Rightarrow> Inr (assign pvname (owners @ [iocname]) dupes1)
         | Inherited_member k \<Rightarrow> Inl TypeError
         | Nothing \<Rightarrow> Inl TypeError)"

text \<open>A loop whose body may raise: the first error ends it.\<close>

fun for_each :: "('a \<Rightarrow> 's \<Rightarrow> js_error + 's) \<Rightarrow> 'a list \<Rightarrow> 's \<Rightarrow> js_error + 's" where
  "for_each body [] s = Inr s"
| "for_each body (x # xs) s =
     (case body x s of Inl e \<Rightarrow> Inl e | Inr s1 \<Rightarrow> for_each body xs s1)"

definition scan_owners ::
  "(string \<times> ioc_entry) list \<Rightarrow> (string \<times> string list) list
     \<Rightarrow> js_error + (string \<times> string list) list" where
  "scan_owners entries dupes0 =
     for_each (\<lambda>(iocname, an_ioc) dupes.
                 case for_each (push_owner iocname)
                        (map fst (database (shell_state (ioc an_ioc)))) dupes of
                   Inl e \<Rightarrow> Inl e
                 | Inr dupes1 \<Rightarrow>
                     for_each (push_owner iocname)
                       (map fst (pva_database (shell_state (ioc an_ioc)))) dupes1)
              entries dupes0"

text \<open>The second loop runs over the entries the map had when it started.\<close>

definition delete_if_single ::
  "string \<times> string list \<Rightarrow> (string \<times> string list) list \<Rightarrow> (string \<times> string list) list" where
  "delete_if_single entry dupes =
     (case entry of (pvname, owners) \<Rightarrow>
        if length owners \<le> 1 then AList.delete pvname dupes else dupes)"

definition drop_single_owners :: "(string \<times> string list) list \<Rightarrow> (string \<times> string list) list" where
  "drop_single_owners dupes = fold delete_if_single dupes dupes"

definition update_duplicates ::
  "(js_error + snapshot) \<Rightarrow> cached_state
     \<Rightarrow> cached_state \<times> request list \<times> (js_error + (string \<times> string list) list returned)" where
  "update_duplicates fetch state =
     (if length (map fst (duplicates state)) \<noteq> 0
      then (state, [], Inr (Value (duplicates state)))
      else
        case load_cached_whatrecord_data fetch state of
          (state1, requests, c) \<Rightarrow>
            (case iocs c of
               None \<Rightarrow> (state1, requests, Inl TypeError)
             | Some entries \<Rightarrow>
                 (case scan_owners entries [] of
                    Inl e \<Rightarrow> (state1, requests, Inl e)
                  | Inr dupes \<Rightarrow>
                      (set_duplicates (drop_single_owners dupes) state1, requests,
                       Inr Nothing))))"

text \<open>
  \<open>find_record_matches\<close>.  \<open>wcmatch\<close> (the wildcard-match package) and \<open>RegExp\<close>
  (the engine's constructor, which raises a SyntaxError on a malformed pattern) are
  parameters.  \<open>Array.from(new Set(matches))\<close> keeps the first occurrence of each
  name, \<open>sort()\<close> orders strings by their code units.  The action also computes
  \<open>query_pattern\<close>, as the remote one does, but only writes it to the console: both
  matchers are compiled from \<open>pattern\<close>.  It commits \<open>end_query\<close> in its
  \<open>finally\<close>; \<open>start_query\<close> occurs nowhere in it.
\<close>

definition unique_names :: "string list \<Rightarrow> string list" where
  "unique_names xs = fold (\<lambda>x seen. if x \<in> set seen then seen else seen @ [x]) xs []"

definition ioc_matches :: "(string \<Rightarrow> bool) \<Rightarrow> ioc_entry \<Rightarrow> string list" where
  "ioc_matches matcher an_ioc =
     filter matcher (map fst (database (shell_state (ioc an_ioc)))) @
     filter matcher (map fst (pva_database (shell_state (ioc an_ioc))))"

definition find_record_matches ::
  "(string \<Rightarrow> string \<Rightarrow> bool) \<Rightarrow> (string \<Rightarrow> js_error + (string \<Rightarrow> bool))
     \<Rightarrow> (js_error + snapshot) \<Rightarrow> string option \<Rightarrow> jv \<Rightarrow> bool \<Rightarrow> cached_state
     \<Rightarrow> cached_state \<times> request list \<times> (js_error + string list returned)" where
  "find_record_matches wcmatch RegExp fetch pattern max_pvs regex state =
     (case pattern of
        None \<Rightarrow> (state, [], Inr Nothing)
      | Some p \<Rightarrow>
          if \<not> regex \<and> has_key p (glob_to_pvs state)
          then (state, [], Inr (get_member p (glob_to_pvs state)))
          else if regex \<and> has_key p (regex_to_pvs state)
          then (state, [], Inr (get_member p (regex_to_pvs state)))
          else
            case load_cached_whatrecord_data fetch state of
              (state1, requests, c) \<Rightarrow>
                (case (if regex then RegExp p else Inr (wcmatch p)) of
                   Inl e \<Rightarrow> (state1, requests, Inr Nothing)
                 | Inr matcher \<Rightarrow>
                     (case iocs c of
                        None \<Rightarrow> (state1, requests, Inl TypeError)
                      | Some entries \<Rightarrow>
                          let matches = concat (map (ioc_matches matcher) (map snd entries))
                          in (end_query
                                (add_record_search_results p (sort (unique_names matches))
                                   regex state1),
                              requests, Inr (Value matches)))))"

subsection \<open>Stand-ins for the two matchers\<close>

text \<open>
  Modelled from the spec: the wildcard-match package is not among the sources.  The
  spec's reading of a glob: \<open>*\<close> matches any substring, \<open>?\<close> matches exactly one
  character, any other character matches itself.
\<close>

fun glob :: "string \<Rightarrow> string \<Rightarrow> bool" where
  "glob [] [] = True"
| "glob [] (c # cs) = False"
| "glob (p # ps) [] = (p = CHR ''*'' \<and> glob ps [])"
| "glob (p # ps) (c # cs) =
     (if p = CHR ''*'' then glob ps (c # cs) \<or> glob (p # ps) cs
      else (p = CHR ''?'' \<or> p = c) \<and> glob ps cs)"

text \<open>
  Modelled from the spec: the engine's regular expressions are not among the sources.
  The spec says only that a malformed pattern is rejected.  The stand-in knows the
  match-all pattern \<open>.*\<close> and the unterminated group \<open>(\<close>, and reads every other
  pattern as a literal to be found anywhere in the name.  It fills the place of the
  parameter in the examples, which search in glob mode or, in regex mode, with the
  malformed pattern \<open>(\<close>.
\<close>

fun found_in :: "string \<Rightarrow> string \<Rightarrow> bool" where
  "found_in p [] = (p = [])"
| "found_in p (c # cs) = (take (length p) (c # cs) = p \<or> found_in p cs)"

definition literal_RegExp :: "string \<Rightarrow> js_error + (string \<Rightarrow> bool)" where
  "literal_RegExp p =
     (if p = ''('' then Inl SyntaxError
      else if p = ''.*'' then Inr (\<lambda>n. True)
      else Inr (found_in p))"

subsection \<open>The hits of a scan\<close>

text \<open>
  An auxiliary list for the proofs about \<open>get_record_info\<close>: what one round of its loop
  commits for a PV name, in the order of the commits.
\<close>

definition hits :: "string \<Rightarrow> ioc_entry \<Rightarrow> pv_result list" where
  "hits record_name an_ioc =
     (case map_of (database (shell_state (ioc an_ioc))) record_name of
        None \<Rightarrow> []
      | Some v3_record \<Rightarrow> [v3_info record_name an_ioc v3_record]) @
     (case map_of (pva_database (shell_state (ioc an_ioc))) record_name of
        None \<Rightarrow> []
      | Some v4_record \<Rightarrow>
          if nullish v4_record then [] else [v4_info record_name an_ioc v4_record])"

subsection \<open>Sample documents\<close>

definition plain_ioc :: "string list \<Rightarrow> string list \<Rightarrow> ioc_entry" where
  "plain_ioc v3_names v4_names =
     \<lparr>md = Obj [],
      ioc = \<lparr>shell_state =
               \<lparr>database = map (\<lambda>n. (n, \<lparr>record_type = ''ai'', instance_data = Obj []\<rparr>))
                                v3_names,
                pva_database = map (\<lambda>n. (n, Obj [])) v4_names,
                database_definition = None\<rparr>\<rparr>\<rparr>"

text \<open>The spec's example: IOC \<open>A\<close> with \<open>pv1\<close>, \<open>pv2\<close> and IOC \<open>B\<close> with \<open>pv2\<close>, \<open>pv3\<close>.\<close>

definition two_iocs :: snapshot where
  "two_iocs = \<lparr>iocs = Some [(''A'', plain_ioc [''pv1'', ''pv2''] []),
                             (''B'', plain_ioc [''pv2'', ''pv3''] [])],
              files = Some []\<rparr>"

text \<open>One IOC that has \<open>pv1\<close> both as a traditional record and as a PVA group.\<close>

definition both_namespaces :: snapshot where
  "both_namespaces = \<lparr>iocs = Some [(''A'', plain_ioc [''pv1''] [''pv1''])], files = Some []\<rparr>"



text \<open>
  Two IOCs with different metadata that both have \<open>pv1\<close> and \<open>pv2\<close> as traditional
  records, of different record types; \<open>B\<close> also has \<open>pv1\<close> as a PVA group.  A third
  IOC has neither name.
\<close>

definition overlapping :: snapshot where
  "overlapping =
     \<lparr>iocs = Some
        [(''A'', \<lparr>md = Obj [(''name'', Str ''A'')],
                  ioc = \<lparr>shell_state =
                           \<lparr>database =
                              [(''pv1'', \<lparr>record_type = ''ai'', instance_data = Obj []\<rparr>),
                               (''pv2'', \<lparr>record_type = ''ai'', instance_data = Obj []\<rparr>)],
                            pva_database = [],
                            database_definition = None\<rparr>\<rparr>\<rparr>),
         (''B'', \<lparr>md = Obj [(''name'', Str ''B'')],
                  ioc = \<lparr>shell_state =
                           \<lparr>database =
                              [(''pv1'', \<lparr>record_type = ''bo'', instance_data = Obj []\<rparr>),
                               (''pv2'', \<lparr>record_type = ''bo'', instance_data = Obj []\<rparr>)],
                            pva_database = [(''pv1'', Obj [(''kind'', Str ''group'')])],
                            database_definition = None\<rparr>\<rparr>\<rparr>),
         (''C'', plain_ioc [''pv3''] [])],
      files = Some []\<rparr>"

text \<open>Two IOCs that both have a record named \<open>constructor\<close>.\<close>

definition inherited_name :: snapshot where
  "inherited_name = \<lparr>iocs = Some [(''A'', plain_ioc [''constructor''] []),
                                   (''B'', plain_ioc [''constructor''] [])],
                    files = Some []\<rparr>"

text \<open>Documents that lack one of the two top-level keys.\<close>

definition no_iocs :: snapshot where
  "no_iocs = \<lparr>iocs = None, files = Some []\<rparr>"

definition no_files :: snapshot where
  "no_files = \<lparr>iocs = Some [(''A'', plain_ioc [''pv1''] [])], files = None\<rparr>"

definition server_down :: "request \<Rightarrow> js_error + jv" where
  "server_down req = Inl NetworkError"

definition server_up :: "request \<Rightarrow> js_error + jv" where
  "server_up req = Inr (Obj [(''matches'', Arr [Str ''pv1'', Str ''pv2''])])"

section \<open>The query counter never goes negative and the flag follows it\<close>

lemma start_query_invariant: "query_invariant state \<Longrightarrow> query_invariant (start_query state)"
  by (simp add: query_invariant_def start_query_def)

lemma end_query_invariant: "query_invariant state \<Longrightarrow> query_invariant (end_query state)"
  by (auto simp: query_invariant_def end_query_def Let_def)

lemma apply_mutation_invariant:
  "query_invariant state \<Longrightarrow> query_invariant (apply_mutation m state)"
  by (cases m) (simp_all add: start_query_invariant end_query_invariant)

lemma apply_mutations_invariant:
  "query_invariant state \<Longrightarrow> query_invariant (apply_mutations ms state)"
  unfolding apply_mutations_def
  by (induction ms arbitrary: state) (simp_all add: apply_mutation_invariant)

lemma fresh_query_invariant: "fresh_query_state state \<Longrightarrow> query_invariant state"
  by (simp add: fresh_query_state_def query_invariant_def)

text \<open>
  C1.  A reachable state is what a finite sequence \<open>history\<close> of \<open>start_query\<close> and
  \<open>end_query\<close> makes of a freshly created store (of either kind: the state is any
  extension of the two counter fields).  Whatever further sequence \<open>ms\<close> of the two
  mutations is applied to it, \<open>queries_in_progress\<close> is not negative afterwards and
  \<open>query_in_progress\<close> is true exactly when \<open>queries_in_progress\<close> is positive.
  Every prefix of \<open>ms\<close> is itself such a sequence, so this holds after every single
  mutation.
\<close>

theorem query_counter_invariant:
  assumes "fresh_query_state state0"
    and "state = apply_mutations history state0"
  shows "0 \<le> queries_in_progress (apply_mutations ms state) \<and>
         (query_in_progress (apply_mutations ms state) \<longleftrightarrow>
            0 < queries_in_progress (apply_mutations ms state))"
proof -
  from assms have "query_invariant state"
    by (simp add: fresh_query_invariant apply_mutations_invariant)
  then have "query_invariant (apply_mutations ms state)"
    by (rule apply_mutations_invariant)
  then show ?thesis
    by (simp add: query_invariant_def)
qed

text \<open>
  The theorem at a fresh snapshot store after one \<open>start_query\<close>: two \<open>end_query\<close>
  stop at zero, and a further \<open>start_query\<close> gives counter \<open>1\<close> and flag \<open>true\<close>.
\<close>

theorem query_counter_invariant_witness:
  "fresh_query_state cached_initial \<and>
   queries_in_progress
     (apply_mutations [End_query, End_query, Start_query]
        (apply_mutations [Start_query] cached_initial)) = 1 \<and>
   query_in_progress
     (apply_mutations [End_query, End_query, Start_query]
        (apply_mutations [Start_query] cached_initial))"
proof -
  have fresh: "fresh_query_state cached_initial"
    by (simp add: fresh_query_state_def cached_initial_def)
  have "queries_in_progress
     (apply_mutations [End_query, End_query, Start_query]
        (apply_mutations [Start_query] cached_initial)) = 1"
    by (simp add: apply_mutations_def start_query_def end_query_def cached_initial_def Let_def)
  with fresh query_counter_invariant [OF fresh refl, of "[End_query, End_query, Start_query]" "[Start_query]"]
  show ?thesis by simp
qed

section \<open>Evaluation of the definitions\<close>

lemmas sample_defs = two_iocs_def both_namespaces_def no_iocs_def no_files_def plain_ioc_def
  cached_initial_def remote_initial_def server_down_def server_up_def empty_snapshot_def

lemmas lookup_defs = has_key_def inherited_def object_prototype_names_def get_member_def
  get_value_def assign_def

lemmas store_defs = load_cached_whatrecord_data_def lookup_defs start_query_def end_query_def
  set_cache_def Let_def

lemmas find_defs = find_record_matches_def remote_find_record_matches_def
  add_record_search_results_def remote_add_record_search_results_def

section \<open>Own properties and inherited members\<close>

lemma inherited_proto: "inherited ''__proto__''"
  by (simp add: inherited_def object_prototype_names_def)

lemma assign_update: "\<not> inherited k \<Longrightarrow> assign k v obj = AList.update k v obj"
  using inherited_proto by (auto simp: assign_def)

lemma not_has_key: "\<not> has_key k obj \<longleftrightarrow> \<not> inherited k \<and> map_of obj k = None"
  by (auto simp: has_key_def map_of_eq_None_iff)

lemma map_of_assign: "\<not> inherited k \<Longrightarrow> map_of (assign k v obj) k = Some v"
  by (simp add: assign_update update_conv')

lemma has_key_assign: "\<not> inherited k \<Longrightarrow> has_key k (assign k v obj)"
  by (simp add: assign_update has_key_def dom_update)

lemma get_member_own: "map_of obj k = Some v \<Longrightarrow> get_member k obj = Value v"
  by (simp add: get_member_def)

lemma get_value_own: "map_of obj k = Some v \<Longrightarrow> get_value k obj = v"
  by (simp add: get_value_def)

lemma map_of_has_key: "map_of obj k = Some v \<Longrightarrow> has_key k obj"
  by (force simp: has_key_def dest: map_of_SomeD)

text \<open>
  On a fresh store the name of an inherited member passes every cache test: the snapshot
  store's pattern search and \<open>get_record_info\<close> return the inherited member at once,
  without loading the snapshot and without a commit.
\<close>

lemma inherited_name_is_answered_at_once:
  "find_record_matches glob literal_RegExp (Inr two_iocs) (Some ''constructor'') Undefined False
     cached_initial = (cached_initial, [], Inr (Inherited_member ''constructor'')) \<and>
   get_record_info (Inr inherited_name) ''constructor'' cached_initial =
     (cached_initial, [], Inr (Inherited_member ''constructor'')) \<and>
   remote_find_record_matches server_up (Some ''toString'') Undefined False remote_initial =
     (remote_initial, [], Inr (Inherited ''toString''))"
  by (simp add: find_defs get_record_info_def lookup_defs cached_initial_def remote_initial_def)

section \<open>The per-PV answer of the snapshot store\<close>

text \<open>
  Loading the snapshot leaves \<open>record_info\<close> alone; one round of the scan replaces the
  entry of the PV name by what the round commits last, when it commits at all.
\<close>

lemma load_record_info:
  "record_info (fst (load_cached_whatrecord_data fetch state)) = record_info state"
  by (simp add: load_cached_whatrecord_data_def start_query_def end_query_def set_cache_def Let_def
      split: option.splits sum.splits)

lemma scan_ioc_record_info:
  assumes "\<not> inherited record_name"
  shows "map_of (record_info (scan_ioc record_name an_ioc state)) record_name =
           (if hits record_name an_ioc = [] then map_of (record_info state) record_name
            else Some (last (hits record_name an_ioc)))"
  using assms
  by (simp add: scan_ioc_def hits_def add_record_info_def assign_update update_conv' Let_def
      split: option.splits)

lemma fold_scan_ioc_record_info:
  assumes "\<not> inherited record_name"
  shows "map_of (record_info (fold (scan_ioc record_name) es state)) record_name =
           (if concat (map (hits record_name) es) = [] then map_of (record_info state) record_name
            else Some (last (concat (map (hits record_name) es))))"
proof (induction es arbitrary: state)
  case Nil
  then show ?case by simp
next
  case (Cons e es)
  show ?case
    by (simp add: Cons.IH scan_ioc_record_info [OF assms] last_append)
qed

lemma get_record_info_scans:
  assumes "\<not> has_key record_name (record_info state)"
    and "iocs (snd (snd (load_cached_whatrecord_data fetch state))) = Some entries"
  shows "map_of (record_info (fst (get_record_info fetch record_name state))) record_name =
           (if concat (map (hits record_name) (map snd entries)) = [] then None
            else Some (last (concat (map (hits record_name) (map snd entries)))))"
proof -
  obtain state1 requests c where
    l: "load_cached_whatrecord_data fetch state = (state1, requests, c)"
    by (cases "load_cached_whatrecord_data fetch state") auto
  with assms(2) have c: "iocs c = Some entries" by simp
  from l have r1: "record_info state1 = record_info state"
    using load_record_info [of fetch state] by simp
  from assms(1) have name: "\<not> inherited record_name"
    and none: "map_of (record_info state) record_name = None"
    by (simp_all add: not_has_key)
  have "fst (get_record_info fetch record_name state) =
          fold (scan_ioc record_name) (map snd entries) state1"
    using assms(1) l c by (simp add: get_record_info_def)
  then show ?thesis
    by (simp add: fold_scan_ioc_record_info [OF name] r1 none)
qed

lemma no_hits:
  assumes "map_of (database (shell_state (ioc an_ioc))) record_name = None"
    and "map_of (pva_database (shell_state (ioc an_ioc))) record_name
           \<in> {None, Some Null, Some Undefined}"
  shows "hits record_name an_ioc = []"
  using assms by (auto simp: hits_def nullish_def)

lemma concat_no_hits:
  assumes "\<forall>e \<in> set es. hits record_name (snd e) = []"
  shows "concat (map (hits record_name) (map snd es)) = []"
  using assms by (induction es) auto

lemma last_hits:
  assumes "concat (map (hits record_name) (map snd after)) = []"
    and "hits record_name an_ioc \<noteq> []"
  shows "concat (map (hits record_name) (map snd (before @ (iocname, an_ioc) # after))) \<noteq> [] \<and>
         last (concat (map (hits record_name) (map snd (before @ (iocname, an_ioc) # after)))) =
           last (hits record_name an_ioc)"
proof -
  have "concat (map (hits record_name) (map snd (before @ (iocname, an_ioc) # after))) =
          concat (map (hits record_name) (map snd before)) @ hits record_name an_ioc"
    by (simp only: map_append list.map concat_append concat.simps snd_conv assms(1)) simp
  with assms(2) show ?thesis by simp
qed



text \<open>
  C10.  Take a PV name that is not the name of an inherited member and has no entry in
  \<open>record_info\<close> yet, so that \<open>get_record_info\<close> scans the snapshot, and let the
  snapshot have its \<open>iocs\<close>.  Let \<open>an_ioc\<close> be the last IOC, in the order in which
  \<open>Object.values\<close> lists them, that has the name: the IOCs after it have it neither as a
  traditional record nor as a PVA group (a group that is \<open>null\<close> does not count), while
  the IOCs before it may have it in any way.  Then the entry that is left for the name
  has exactly one element, and it is the contribution of that IOC alone: of its PVA
  group if it has the name as one, whether or not it also has a traditional record of
  that name, and of its traditional record otherwise.  Nothing of an earlier IOC, and
  nothing of the traditional record of an IOC that has both, is kept.
\<close>

theorem record_info_keeps_last_hit:
  assumes "\<not> inherited record_name"
    and "\<not> has_key record_name (record_info state)"
    and "iocs (snd (snd (load_cached_whatrecord_data fetch state))) =
           Some (before @ (iocname, an_ioc) # after)"
    and "\<forall>e \<in> set after.
           map_of (database (shell_state (ioc (snd e)))) record_name = None \<and>
           map_of (pva_database (shell_state (ioc (snd e)))) record_name
             \<in> {None, Some Null, Some Undefined}"
  shows "(map_of (pva_database (shell_state (ioc an_ioc))) record_name = Some v4_record \<and>
          v4_record \<noteq> Null \<and> v4_record \<noteq> Undefined \<longrightarrow>
            map_of (record_info (fst (get_record_info fetch record_name state))) record_name =
              Some \<lparr>pv_name = record_name, present = True,
                    info = [\<lparr>name = record_name, ioc_md = md an_ioc,
                             record_of = \<lparr>definition_of = Null, instance_of = None\<rparr>,
                             pva_group = v4_record\<rparr>]\<rparr>) \<and>
         (map_of (pva_database (shell_state (ioc an_ioc))) record_name
            \<in> {None, Some Null, Some Undefined} \<and>
          map_of (database (shell_state (ioc an_ioc))) record_name = Some v3_record \<longrightarrow>
            map_of (record_info (fst (get_record_info fetch record_name state))) record_name =
              Some \<lparr>pv_name = record_name, present = True,
                    info = [\<lparr>name = record_name, ioc_md = md an_ioc,
                             record_of =
                               \<lparr>definition_of =
                                  record_type_definition (shell_state (ioc an_ioc)) v3_record,
                                instance_of = Some v3_record\<rparr>,
                             pva_group = Null\<rparr>]\<rparr>)"
proof -
  have after: "concat (map (hits record_name) (map snd after)) = []"
    using assms(4) by (intro concat_no_hits ballI no_hits) auto
  note scan = get_record_info_scans [OF assms(2,3)]
  have group: "map_of (record_info (fst (get_record_info fetch record_name state))) record_name =
      Some \<lparr>pv_name = record_name, present = True,
            info = [\<lparr>name = record_name, ioc_md = md an_ioc,
                     record_of = \<lparr>definition_of = Null, instance_of = None\<rparr>,
                     pva_group = v4_record\<rparr>]\<rparr>"
    if "map_of (pva_database (shell_state (ioc an_ioc))) record_name = Some v4_record"
      and "v4_record \<noteq> Null" and "v4_record \<noteq> Undefined"
  proof -
    from that have "hits record_name an_ioc \<noteq> [] \<and>
        last (hits record_name an_ioc) = v4_info record_name an_ioc v4_record"
      by (simp add: hits_def nullish_def)
    with last_hits [OF after, of an_ioc before iocname] scan show ?thesis
      by (simp add: v4_info_def)
  qed
  have traditional: "map_of (record_info (fst (get_record_info fetch record_name state))) record_name =
      Some \<lparr>pv_name = record_name, present = True,
            info = [\<lparr>name = record_name, ioc_md = md an_ioc,
                     record_of =
                       \<lparr>definition_of = record_type_definition (shell_state (ioc an_ioc)) v3_record,
                        instance_of = Some v3_record\<rparr>,
                     pva_group = Null\<rparr>]\<rparr>"
    if "map_of (pva_database (shell_state (ioc an_ioc))) record_name
          \<in> {None, Some Null, Some Undefined}"
      and "map_of (database (shell_state (ioc an_ioc))) record_name = Some v3_record"
  proof -
    from that have "hits record_name an_ioc \<noteq> [] \<and>
        last (hits record_name an_ioc) = v3_info record_name an_ioc v3_record"
      by (auto simp: hits_def nullish_def)
    with last_hits [OF after, of an_ioc before iocname] scan show ?thesis
      by (simp add: v3_info_def)
  qed
  from group traditional show ?thesis by blast
qed

text \<open>
  The theorem at the sample snapshot \<open>overlapping\<close>.  \<open>pv1\<close> is a record of \<open>A\<close>, a
  record of \<open>B\<close> and a PVA group of \<open>B\<close>: what is kept is the group, under the
  metadata of \<open>B\<close>.  \<open>pv2\<close> is a record of \<open>A\<close> (type \<open>ai\<close>) and of \<open>B\<close> (type
  \<open>bo\<close>): what is kept is the record of \<open>B\<close>.
\<close>

theorem record_info_keeps_last_hit_witness:
  "\<not> inherited ''pv1'' \<and> \<not> inherited ''pv2'' \<and>
   \<not> has_key ''pv1'' (record_info cached_initial) \<and>
   \<not> has_key ''pv2'' (record_info cached_initial) \<and>
   map_of (record_info (fst (get_record_info (Inr overlapping) ''pv1'' cached_initial))) ''pv1'' =
     Some \<lparr>pv_name = ''pv1'', present = True,
           info = [\<lparr>name = ''pv1'', ioc_md = Obj [(''name'', Str ''B'')],
                    record_of = \<lparr>definition_of = Null, instance_of = None\<rparr>,
                    pva_group = Obj [(''kind'', Str ''group'')]\<rparr>]\<rparr> \<and>
   map_of (record_info (fst (get_record_info (Inr overlapping) ''pv2'' cached_initial))) ''pv2'' =
     Some \<lparr>pv_name = ''pv2'', present = True,
           info = [\<lparr>name = ''pv2'', ioc_md = Obj [(''name'', Str ''B'')],
                    record_of = \<lparr>definition_of = Null,
                                 instance_of = Some \<lparr>record_type = ''bo'', instance_data = Obj []\<rparr>\<rparr>,
                    pva_group = Null\<rparr>]\<rparr>"
proof -
  let ?A = "\<lparr>md = Obj [(''name'', Str ''A'')],
             ioc = \<lparr>shell_state =
                      \<lparr>database =
                         [(''pv1'', \<lparr>record_type = ''ai'', instance_data = Obj []\<rparr>),
                          (''pv2'', \<lparr>record_type = ''ai'', instance_data = Obj []\<rparr>)],
                       pva_database = [],
                       database_definition = None\<rparr>\<rparr>\<rparr>"
  let ?B = "\<lparr>md = Obj [(''name'', Str ''B'')],
             ioc = \<lparr>shell_state =
                      \<lparr>database =
                         [(''pv1'', \<lparr>record_type = ''bo'', instance_data = Obj []\<rparr>),
                          (''pv2'', \<lparr>record_type = ''bo'', instance_data = Obj []\<rparr>)],
                       pva_database = [(''pv1'', Obj [(''kind'', Str ''group'')])],
                       database_definition = None\<rparr>\<rparr>\<rparr>"
  have i: "\<not> inherited ''pv1''" "\<not> inherited ''pv2''"
    by (simp_all add: inherited_def object_prototype_names_def)
  have a: "\<not> has_key ''pv1'' (record_info cached_initial)"
    "\<not> has_key ''pv2'' (record_info cached_initial)"
    by (simp_all add: cached_initial_def lookup_defs)
  have b: "iocs (snd (snd (load_cached_whatrecord_data (Inr overlapping) cached_initial))) =
     Some ([(''A'', ?A)] @ (''B'', ?B) # [(''C'', plain_ioc [''pv3''] [])])"
    by (simp add: store_defs sample_defs overlapping_def)
  have c: "\<forall>e \<in> set [(''C'', plain_ioc [''pv3''] [])].
           map_of (database (shell_state (ioc (snd e)))) n = None \<and>
           map_of (pva_database (shell_state (ioc (snd e)))) n \<in> {None, Some Null, Some Undefined}"
    if "n = ''pv1'' \<or> n = ''pv2''" for n
    using that by (auto simp: plain_ioc_def)
  have g: "map_of (pva_database (shell_state (ioc ?B))) ''pv1'' = Some (Obj [(''kind'', Str ''group'')]) \<and>
           Obj [(''kind'', Str ''group'')] \<noteq> Null \<and> Obj [(''kind'', Str ''group'')] \<noteq> Undefined"
    by simp
  have t: "map_of (pva_database (shell_state (ioc ?B))) ''pv2'' \<in> {None, Some Null, Some Undefined} \<and>
           map_of (database (shell_state (ioc ?B))) ''pv2'' =
             Some \<lparr>record_type = ''bo'', instance_data = Obj []\<rparr>"
    by simp
  from record_info_keeps_last_hit [OF i(1) a(1) b c, of "Obj [(''kind'', Str ''group'')]"] g
  have r1: "map_of (record_info (fst (get_record_info (Inr overlapping) ''pv1'' cached_initial))) ''pv1'' =
     Some \<lparr>pv_name = ''pv1'', present = True,
           info = [\<lparr>name = ''pv1'', ioc_md = Obj [(''name'', Str ''B'')],
                    record_of = \<lparr>definition_of = Null, instance_of = None\<rparr>,
                    pva_group = Obj [(''kind'', Str ''group'')]\<rparr>]\<rparr>"
    by simp
  from record_info_keeps_last_hit [OF i(2) a(2) b c,
      of _ "\<lparr>record_type = ''bo'', instance_data = Obj []\<rparr>"] t
  have r2: "map_of (record_info (fst (get_record_info (Inr overlapping) ''pv2'' cached_initial))) ''pv2'' =
     Some \<lparr>pv_name = ''pv2'', present = True,
           info = [\<lparr>name = ''pv2'', ioc_md = Obj [(''name'', Str ''B'')],
                    record_of = \<lparr>definition_of = Null,
                                 instance_of = Some \<lparr>record_type = ''bo'', instance_data = Obj []\<rparr>\<rparr>,
                    pva_group = Null\<rparr>]\<rparr>"
    by (simp add: record_type_definition_def)
  from i a r1 r2 show ?thesis by simp
qed

section \<open>Duplicate detection of the snapshot store\<close>

text \<open>
  For the spec's example \<open>{A: [pv1, pv2], B: [pv2, pv3]}\<close> the committed map is
  \<open>{pv2: [A, B]}\<close>.
\<close>

lemma duplicates_of_two_iocs:
  "duplicates (fst (update_duplicates (Inr two_iocs) cached_initial)) = [(''pv2'', [''A'', ''B''])]"
  by (simp add: update_duplicates_def set_duplicates_def scan_owners_def push_owner_def
      drop_single_owners_def delete_if_single_def store_defs sample_defs)

text \<open>
  C6 fails on the code.  The claim speaks of PV names exposed by two or more distinct
  IOCs.  The code pushes the IOC name once for the \<open>database\<close> and once for the
  \<open>pva_database\<close> and keeps a name whose list is longer than one: a single IOC that
  has \<open>pv1\<close> in both is committed as \<open>{pv1: [A, A]}\<close>.  And for two IOCs that both have
  a record named \<open>constructor\<close>, \<open>pvname in dupes\<close> is true from the start, no list is
  created, the \<open>push\<close> raises a TypeError and no map is committed.
\<close>

theorem one_ioc_listed_twice:
  "duplicates (fst (update_duplicates (Inr both_namespaces) cached_initial)) =
     [(''pv1'', [''A'', ''A''])] \<and>
   snd (snd (update_duplicates (Inr inherited_name) cached_initial)) = Inl TypeError \<and>
   duplicates (fst (update_duplicates (Inr inherited_name) cached_initial)) = []"
  by (simp add: update_duplicates_def set_duplicates_def scan_owners_def push_owner_def
      drop_single_owners_def delete_if_single_def store_defs sample_defs inherited_name_def)

section \<open>Pattern search\<close>

text \<open>
  C4, as the claim states it, fails: while the server is down the remote search commits
  nothing under the pattern, and the same search issued again sends its request again.
\<close>

theorem failed_search_asks_again:
  "fst (snd (remote_find_record_matches server_down (Some ''pv*'') (Num 10) False
       (fst (remote_find_record_matches server_down (Some ''pv*'') (Num 10) False remote_initial)))) =
   [\<lparr>url = ''/api/pv/matches'',
     params = [(''pattern'', Str ''pv*''), (''max'', Num 10), (''regex'', Bool False)]\<rparr>]"
  by (simp add: find_defs store_defs sample_defs)

text \<open>The two maps of a store are touched by a search only through its one commit.\<close>

lemma remote_maps_start_end:
  "remote_state.glob_to_pvs (end_query (start_query state)) = remote_state.glob_to_pvs state"
  "remote_state.regex_to_pvs (end_query (start_query state)) = remote_state.regex_to_pvs state"
  by (simp_all add: start_query_def end_query_def Let_def)

lemma load_maps:
  "glob_to_pvs (fst (load_cached_whatrecord_data fetch state)) = glob_to_pvs state"
  "regex_to_pvs (fst (load_cached_whatrecord_data fetch state)) = regex_to_pvs state"
  by (simp_all add: load_cached_whatrecord_data_def start_query_def end_query_def set_cache_def
      Let_def split: option.splits sum.splits)

lemma remote_search_succeeds:
  assumes fresh: "\<not> has_key p (if regex then remote_state.regex_to_pvs rstate
                                else remote_state.glob_to_pvs rstate)"
    and net: "net_a \<lparr>url = ''/api/pv/matches'',
                    params = [(''pattern'', Str (if p \<noteq> [] then p else if regex then ''.*'' else ''*'')),
                              (''max'', max_a), (''regex'', Bool regex)]\<rparr> = Inr data"
    and field: "get_field data ''matches'' = Inr matches"
  shows "snd (snd (remote_find_record_matches net_a (Some p) max_a regex rstate)) = Inr matches \<and>
         remote_find_record_matches net_b (Some p) max_b regex
           (fst (remote_find_record_matches net_a (Some p) max_a regex rstate)) =
           (fst (remote_find_record_matches net_a (Some p) max_a regex rstate), [], Inr matches)"
proof -
  let ?state1 = "end_query (remote_add_record_search_results p matches regex (start_query rstate))"
  from fresh have name: "\<not> inherited p" by (auto simp: not_has_key split: if_splits)
  have first: "remote_find_record_matches net_a (Some p) max_a regex rstate =
                 (?state1,
                  [\<lparr>url = ''/api/pv/matches'',
                    params = [(''pattern'', Str (if p \<noteq> [] then p else if regex then ''.*'' else ''*'')),
                              (''max'', max_a), (''regex'', Bool regex)]\<rparr>],
                  Inr matches)"
    using fresh net field
    by (auto simp: remote_find_record_matches_def Let_def split: if_splits)
  have entry: "map_of (if regex then remote_state.regex_to_pvs ?state1
                       else remote_state.glob_to_pvs ?state1) p = Some matches"
    by (simp add: remote_add_record_search_results_def start_query_def end_query_def Let_def
        map_of_assign [OF name])
  then have key: "has_key p (if regex then remote_state.regex_to_pvs ?state1
                             else remote_state.glob_to_pvs ?state1)"
    by (rule map_of_has_key)
  from entry have val: "get_value p (if regex then remote_state.regex_to_pvs ?state1
                                     else remote_state.glob_to_pvs ?state1) = matches"
    by (rule get_value_own)
  have "remote_find_record_matches net_b (Some p) max_b regex ?state1 = (?state1, [], Inr matches)"
    using key val by (auto simp: remote_find_record_matches_def split: if_splits)
  with first show ?thesis by simp
qed

lemma remote_search_fails:
  assumes fresh: "\<not> has_key p (if regex then remote_state.regex_to_pvs rstate
                                else remote_state.glob_to_pvs rstate)"
    and net: "case net_a \<lparr>url = ''/api/pv/matches'',
                    params = [(''pattern'', Str (if p \<noteq> [] then p else if regex then ''.*'' else ''*'')),
                              (''max'', max_a), (''regex'', Bool regex)]\<rparr> of
                Inl e \<Rightarrow> True | Inr data \<Rightarrow> nullish data"
  shows "snd (snd (remote_find_record_matches net_a (Some p) max_a regex rstate)) = Inr Undefined \<and>
         remote_state.glob_to_pvs (fst (remote_find_record_matches net_a (Some p) max_a regex rstate)) =
           remote_state.glob_to_pvs rstate \<and>
         remote_state.regex_to_pvs (fst (remote_find_record_matches net_a (Some p) max_a regex rstate)) =
           remote_state.regex_to_pvs rstate \<and>
         fst (snd (remote_find_record_matches net_b (Some p) max_b regex
                     (fst (remote_find_record_matches net_a (Some p) max_a regex rstate)))) =
           [\<lparr>url = ''/api/pv/matches'',
             params = [(''pattern'', Str (if p \<noteq> [] then p else if regex then ''.*'' else ''*'')),
                       (''max'', max_b), (''regex'', Bool regex)]\<rparr>]"
proof -
  have first: "remote_find_record_matches net_a (Some p) max_a regex rstate =
                 (end_query (start_query rstate),
                  [\<lparr>url = ''/api/pv/matches'',
                    params = [(''pattern'', Str (if p \<noteq> [] then p else if regex then ''.*'' else ''*'')),
                              (''max'', max_a), (''regex'', Bool regex)]\<rparr>],
                  Inr Undefined)"
    using fresh net
    by (auto simp: remote_find_record_matches_def Let_def nullish_def
        split: if_splits sum.splits)
  have again: "\<not> has_key p (if regex then remote_state.regex_to_pvs (end_query (start_query rstate))
                              else remote_state.glob_to_pvs (end_query (start_query rstate)))"
    using fresh by (auto simp: remote_maps_start_end split: if_splits)
  have "fst (snd (remote_find_record_matches net_b (Some p) max_b regex
                    (end_query (start_query rstate)))) =
          [\<lparr>url = ''/api/pv/matches'',
            params = [(''pattern'', Str (if p \<noteq> [] then p else if regex then ''.*'' else ''*'')),
                      (''max'', max_b), (''regex'', Bool regex)]\<rparr>]"
    using again
    by (auto simp: remote_find_record_matches_def Let_def split: if_splits sum.splits)
  with first show ?thesis by (simp add: remote_maps_start_end)
qed

lemma cached_search_succeeds:
  assumes fresh: "\<not> has_key p (if regex then regex_to_pvs cstate else glob_to_pvs cstate)"
    and snapshot: "iocs (snd (snd (load_cached_whatrecord_data fetch_a cstate))) = Some entries"
    and compiled: "(if regex then RegExp_a p else Inr (wcmatch_a p)) = Inr matcher"
  shows "map_of (if regex
                 then regex_to_pvs (fst (find_record_matches wcmatch_a RegExp_a fetch_a (Some p) cmax_a regex cstate))
                 else glob_to_pvs (fst (find_record_matches wcmatch_a RegExp_a fetch_a (Some p) cmax_a regex cstate)))
           p = Some (sort (unique_names (concat (map (ioc_matches matcher) (map snd entries))))) \<and>
         find_record_matches wcmatch_b RegExp_b fetch_b (Some p) cmax_b regex
           (fst (find_record_matches wcmatch_a RegExp_a fetch_a (Some p) cmax_a regex cstate)) =
           (fst (find_record_matches wcmatch_a RegExp_a fetch_a (Some p) cmax_a regex cstate), [],
            Inr (Value (sort (unique_names (concat (map (ioc_matches matcher) (map snd entries)))))))"
proof -
  let ?names = "sort (unique_names (concat (map (ioc_matches matcher) (map snd entries))))"
  obtain state1 requests c where
    l: "load_cached_whatrecord_data fetch_a cstate = (state1, requests, c)"
    by (cases "load_cached_whatrecord_data fetch_a cstate") auto
  with snapshot have c: "iocs c = Some entries" by simp
  let ?state2 = "end_query (add_record_search_results p ?names regex state1)"
  from fresh have name: "\<not> inherited p" by (auto simp: not_has_key split: if_splits)
  have first: "fst (find_record_matches wcmatch_a RegExp_a fetch_a (Some p) cmax_a regex cstate) = ?state2"
    using fresh l c compiled
    by (auto simp: find_record_matches_def Let_def split: if_splits)
  have entry: "map_of (if regex then regex_to_pvs ?state2 else glob_to_pvs ?state2) p = Some ?names"
    by (simp add: add_record_search_results_def end_query_def Let_def map_of_assign [OF name])
  then have key: "has_key p (if regex then regex_to_pvs ?state2 else glob_to_pvs ?state2)"
    by (rule map_of_has_key)
  from entry have val: "get_member p (if regex then regex_to_pvs ?state2 else glob_to_pvs ?state2) =
                          Value ?names"
    by (rule get_member_own)
  have second: "find_record_matches wcmatch_b RegExp_b fetch_b (Some p) cmax_b regex ?state2 =
          (?state2, [], Inr (Value ?names))"
    using key val by (auto simp: find_record_matches_def split: if_splits)
  show ?thesis
    unfolding first by (rule conjI [OF entry second])
qed

lemma cached_search_fails:
  assumes fresh: "\<not> has_key p (if regex then regex_to_pvs cstate else glob_to_pvs cstate)"
    and rejected: "(if regex then RegExp_a p else Inr (wcmatch_a p)) = Inl err"
  shows "snd (snd (find_record_matches wcmatch_a RegExp_a fetch_a (Some p) cmax_a regex cstate)) =
           Inr Nothing \<and>
         glob_to_pvs (fst (find_record_matches wcmatch_a RegExp_a fetch_a (Some p) cmax_a regex cstate)) =
           glob_to_pvs cstate \<and>
         regex_to_pvs (fst (find_record_matches wcmatch_a RegExp_a fetch_a (Some p) cmax_a regex cstate)) =
           regex_to_pvs cstate"
proof -
  obtain state1 requests c where
    l: "load_cached_whatrecord_data fetch_a cstate = (state1, requests, c)"
    by (cases "load_cached_whatrecord_data fetch_a cstate") auto
  have "find_record_matches wcmatch_a RegExp_a fetch_a (Some p) cmax_a regex cstate =
          (state1, requests, Inr Nothing)"
    using fresh l rejected
    by (auto simp: find_record_matches_def Let_def split: if_splits)
  moreover have "glob_to_pvs state1 = glob_to_pvs cstate" "regex_to_pvs state1 = regex_to_pvs cstate"
    using load_maps [of fetch_a cstate] l by simp_all
  ultimately show ?thesis by simp
qed

text \<open>
  C4, amended.  Take a pattern \<open>p\<close> for which the cache test of its mode is false in
  both stores: \<open>p\<close> has no entry in the map and is not the name of an inherited member.

  Remote store.  If the request is answered and reading \<open>matches\<close> from the body does
  not fail, the search returns these \<open>matches\<close>, and the same search issued again,
  whatever the network and \<open>max_pvs\<close> are then, sends no request, leaves the state as
  it is and returns the same \<open>matches\<close>.  If the request is rejected, or its body is
  \<open>null\<close> or \<open>undefined\<close>, the search returns \<open>undefined\<close> and leaves both maps as
  they were, and the same search issued again sends its request again.

  Snapshot store.  If the snapshot has its \<open>iocs\<close> and the pattern compiles, the search
  commits the deduplicated, sorted names that match, and the same search issued again,
  whatever the download and the matchers are then, sends no request, leaves the state
  as it is, and returns the committed list.  If the pattern does not compile, the
  search returns \<open>undefined\<close> and leaves both maps as they were, so that the cache test
  is false again for the same search.
\<close>

theorem cached_pattern_is_answered_from_cache:
  assumes "\<not> has_key p (if regex then remote_state.regex_to_pvs rstate
                         else remote_state.glob_to_pvs rstate)"
    and "\<not> has_key p (if regex then regex_to_pvs cstate else glob_to_pvs cstate)"
    and "req1 = \<lparr>url = ''/api/pv/matches'',
                  params = [(''pattern'', Str (if p \<noteq> [] then p else if regex then ''.*'' else ''*'')),
                            (''max'', max1), (''regex'', Bool regex)]\<rparr>"
    and "req2 = \<lparr>url = ''/api/pv/matches'',
                  params = [(''pattern'', Str (if p \<noteq> [] then p else if regex then ''.*'' else ''*'')),
                            (''max'', max2), (''regex'', Bool regex)]\<rparr>"
    and "rfirst = remote_find_record_matches net1 (Some p) max1 regex rstate"
    and "cfirst = find_record_matches wcmatch1 RegExp1 fetch1 (Some p) cmax1 regex cstate"
  shows "(net1 req1 = Inr data \<and> get_field data ''matches'' = Inr matches \<longrightarrow>
            snd (snd rfirst) = Inr matches \<and>
            remote_find_record_matches net2 (Some p) max2 regex (fst rfirst) =
              (fst rfirst, [], Inr matches)) \<and>
         ((case net1 req1 of Inl e \<Rightarrow> True | Inr body \<Rightarrow> nullish body) \<longrightarrow>
            snd (snd rfirst) = Inr Undefined \<and>
            remote_state.glob_to_pvs (fst rfirst) = remote_state.glob_to_pvs rstate \<and>
            remote_state.regex_to_pvs (fst rfirst) = remote_state.regex_to_pvs rstate \<and>
            fst (snd (remote_find_record_matches net2 (Some p) max2 regex (fst rfirst))) = [req2]) \<and>
         (iocs (snd (snd (load_cached_whatrecord_data fetch1 cstate))) = Some entries \<and>
          (if regex then RegExp1 p else Inr (wcmatch1 p)) = Inr matcher \<longrightarrow>
            map_of (if regex then regex_to_pvs (fst cfirst) else glob_to_pvs (fst cfirst)) p =
              Some (sort (unique_names (concat (map (ioc_matches matcher) (map snd entries))))) \<and>
            find_record_matches wcmatch2 RegExp2 fetch2 (Some p) cmax2 regex (fst cfirst) =
              (fst cfirst, [],
               Inr (Value (sort (unique_names
                                   (concat (map (ioc_matches matcher) (map snd entries)))))))) \<and>
         ((if regex then RegExp1 p else Inr (wcmatch1 p)) = Inl err \<longrightarrow>
            snd (snd cfirst) = Inr Nothing \<and>
            glob_to_pvs (fst cfirst) = glob_to_pvs cstate \<and>
            regex_to_pvs (fst cfirst) = regex_to_pvs cstate \<and>
            \<not> has_key p (if regex then regex_to_pvs (fst cfirst) else glob_to_pvs (fst cfirst)))"
proof (intro conjI impI)
  assume "net1 req1 = Inr data \<and> get_field data ''matches'' = Inr matches"
  then have ok: "snd (snd rfirst) = Inr matches \<and>
      remote_find_record_matches net2 (Some p) max2 regex (fst rfirst) =
        (fst rfirst, [], Inr matches)"
    unfolding assms(3,5)
    using remote_search_succeeds [where net_a = net1 and max_a = max1 and net_b = net2
        and max_b = max2, OF assms(1)]
    by blast
  from ok show "snd (snd rfirst) = Inr matches" ..
  from ok show "remote_find_record_matches net2 (Some p) max2 regex (fst rfirst) =
        (fst rfirst, [], Inr matches)" ..
next
  assume failed: "case net1 req1 of Inl e \<Rightarrow> True | Inr body \<Rightarrow> nullish body"
  note f = remote_search_fails [where net_a = net1 and max_a = max1 and net_b = net2
      and max_b = max2, OF assms(1) failed [unfolded assms(3)], folded assms(4,5)]
  from f show "snd (snd rfirst) = Inr Undefined" by simp
  from f show "remote_state.glob_to_pvs (fst rfirst) = remote_state.glob_to_pvs rstate" by simp
  from f show "remote_state.regex_to_pvs (fst rfirst) = remote_state.regex_to_pvs rstate" by simp
  from f show "fst (snd (remote_find_record_matches net2 (Some p) max2 regex (fst rfirst))) = [req2]"
    by simp
next
  assume "iocs (snd (snd (load_cached_whatrecord_data fetch1 cstate))) = Some entries \<and>
          (if regex then RegExp1 p else Inr (wcmatch1 p)) = Inr matcher"
  then have s: "iocs (snd (snd (load_cached_whatrecord_data fetch1 cstate))) = Some entries"
    and m: "(if regex then RegExp1 p else Inr (wcmatch1 p)) = Inr matcher"
    by simp_all
  note f = cached_search_succeeds [where wcmatch_a = wcmatch1 and RegExp_a = RegExp1
      and fetch_a = fetch1 and cmax_a = cmax1 and wcmatch_b = wcmatch2 and RegExp_b = RegExp2
      and fetch_b = fetch2 and cmax_b = cmax2, OF assms(2) s m, folded assms(6)]
  from f show "map_of (if regex then regex_to_pvs (fst cfirst) else glob_to_pvs (fst cfirst)) p =
              Some (sort (unique_names (concat (map (ioc_matches matcher) (map snd entries)))))"
    by simp
  from f show "find_record_matches wcmatch2 RegExp2 fetch2 (Some p) cmax2 regex (fst cfirst) =
              (fst cfirst, [],
               Inr (Value (sort (unique_names
                                   (concat (map (ioc_matches matcher) (map snd entries)))))))"
    by simp
next
  assume r: "(if regex then RegExp1 p else Inr (wcmatch1 p)) = Inl err"
  note f = cached_search_fails [where wcmatch_a = wcmatch1 and RegExp_a = RegExp1
      and fetch_a = fetch1 and cmax_a = cmax1, OF assms(2) r, folded assms(6)]
  from f show "snd (snd cfirst) = Inr Nothing" by simp
  from f show "glob_to_pvs (fst cfirst) = glob_to_pvs cstate" by simp
  from f show "regex_to_pvs (fst cfirst) = regex_to_pvs cstate" by simp
  from f assms(2) show "\<not> has_key p (if regex then regex_to_pvs (fst cfirst)
                                        else glob_to_pvs (fst cfirst))"
    by (auto split: if_splits)
qed

text \<open>
  The theorem at four searches from fresh stores.  In glob mode with the pattern \<open>*\<close>:
  a remote search that succeeds is repeated, with another \<open>max_pvs\<close>, while the server
  is down; a snapshot search over the spec's two IOCs, whose matches hold \<open>pv2\<close> twice,
  is repeated while the download fails.  In regex mode with the malformed pattern
  \<open>(\<close>: a remote search is made and repeated while the server is down; a snapshot
  search is made.
\<close>

theorem cached_pattern_is_answered_from_cache_witness:
  "\<not> has_key ''*'' (remote_state.glob_to_pvs remote_initial) \<and>
   \<not> has_key ''*'' (glob_to_pvs cached_initial) \<and>
   \<not> has_key ''('' (remote_state.regex_to_pvs remote_initial) \<and>
   \<not> has_key ''('' (regex_to_pvs cached_initial) \<and>
   remote_find_record_matches server_down (Some ''*'') (Num 20) False
     (fst (remote_find_record_matches server_up (Some ''*'') (Num 10) False remote_initial)) =
     (fst (remote_find_record_matches server_up (Some ''*'') (Num 10) False remote_initial), [],
      Inr (Arr [Str ''pv1'', Str ''pv2''])) \<and>
   snd (snd (remote_find_record_matches server_up (Some ''*'') (Num 10) False remote_initial)) =
     Inr (Arr [Str ''pv1'', Str ''pv2'']) \<and>
   find_record_matches glob literal_RegExp (Inl NetworkError) (Some ''*'') (Num 20) False
     (fst (find_record_matches glob literal_RegExp (Inr two_iocs) (Some ''*'') (Num 10) False
             cached_initial)) =
     (fst (find_record_matches glob literal_RegExp (Inr two_iocs) (Some ''*'') (Num 10) False
             cached_initial), [], Inr (Value [''pv1'', ''pv2'', ''pv3''])) \<and>
   fst (snd (remote_find_record_matches server_down (Some ''('') (Num 20) True
               (fst (remote_find_record_matches server_down (Some ''('') (Num 10) True
                       remote_initial)))) =
     [\<lparr>url = ''/api/pv/matches'',
       params = [(''pattern'', Str ''(''), (''max'', Num 20), (''regex'', Bool True)]\<rparr>] \<and>
   snd (snd (find_record_matches glob literal_RegExp (Inr two_iocs) (Some ''('') (Num 10) True
               cached_initial)) = Inr Nothing \<and>
   regex_to_pvs (fst (find_record_matches glob literal_RegExp (Inr two_iocs) (Some ''('') (Num 10)
                        True cached_initial)) = []"
proof -
  have fresh: "\<not> has_key ''*'' (remote_state.glob_to_pvs remote_initial)"
    "\<not> has_key ''*'' (glob_to_pvs cached_initial)"
    "\<not> has_key ''('' (remote_state.regex_to_pvs remote_initial)"
    "\<not> has_key ''('' (regex_to_pvs cached_initial)"
    by (simp_all add: remote_initial_def cached_initial_def lookup_defs)
  have up: "server_up \<lparr>url = ''/api/pv/matches'',
                        params = [(''pattern'', Str ''*''), (''max'', Num 10),
                                  (''regex'', Bool False)]\<rparr> =
              Inr (Obj [(''matches'', Arr [Str ''pv1'', Str ''pv2''])]) \<and>
            get_field (Obj [(''matches'', Arr [Str ''pv1'', Str ''pv2''])]) ''matches'' =
              Inr (Arr [Str ''pv1'', Str ''pv2''])"
    by (simp add: server_up_def)
  have down: "case server_down \<lparr>url = ''/api/pv/matches'',
                                 params = [(''pattern'', Str ''(''), (''max'', Num 10),
                                           (''regex'', Bool True)]\<rparr> of
                Inl e \<Rightarrow> True | Inr body \<Rightarrow> nullish body"
    by (simp add: server_down_def)
  have snapshot: "iocs (snd (snd (load_cached_whatrecord_data (Inr two_iocs) cached_initial))) =
      Some [(''A'', plain_ioc [''pv1'', ''pv2''] []), (''B'', plain_ioc [''pv2'', ''pv3''] [])] \<and>
      (if False then literal_RegExp ''*'' else Inr (glob ''*'')) = Inr (glob ''*'')"
    by (simp add: store_defs sample_defs)
  have malformed: "(if True then literal_RegExp ''('' else Inr (glob ''('')) = Inl SyntaxError"
    by (simp add: literal_RegExp_def)
  note glob_mode = cached_pattern_is_answered_from_cache
    [where p = "''*''" and regex = False and rstate = remote_initial and cstate = cached_initial
        and ?req1.0 = "\<lparr>url = ''/api/pv/matches'',
                        params = [(''pattern'', Str ''*''), (''max'', Num 10),
                                  (''regex'', Bool False)]\<rparr>"
        and ?req2.0 = "\<lparr>url = ''/api/pv/matches'',
                        params = [(''pattern'', Str ''*''), (''max'', Num 20),
                                  (''regex'', Bool False)]\<rparr>"
        and rfirst = "remote_find_record_matches server_up (Some ''*'') (Num 10) False remote_initial"
        and cfirst = "find_record_matches glob literal_RegExp (Inr two_iocs) (Some ''*'') (Num 10)
                        False cached_initial"
        and ?net1.0 = server_up and ?net2.0 = server_down
        and ?max1.0 = "Num 10" and ?max2.0 = "Num 20"
        and data = "Obj [(''matches'', Arr [Str ''pv1'', Str ''pv2''])]"
        and matches = "Arr [Str ''pv1'', Str ''pv2'']"
        and ?fetch1.0 = "Inr two_iocs" and ?fetch2.0 = "Inl NetworkError"
        and ?wcmatch1.0 = glob and ?RegExp1.0 = literal_RegExp
        and ?wcmatch2.0 = glob and ?RegExp2.0 = literal_RegExp
        and ?cmax1.0 = "Num 10" and ?cmax2.0 = "Num 20"
        and entries = "[(''A'', plain_ioc [''pv1'', ''pv2''] []), (''B'', plain_ioc [''pv2'', ''pv3''] [])]"
        and matcher = "glob ''*''", simplified, OF fresh(1) fresh(2)]
  note regex_mode = cached_pattern_is_answered_from_cache
    [where p = "''(''" and regex = True and rstate = remote_initial and cstate = cached_initial
        and ?req1.0 = "\<lparr>url = ''/api/pv/matches'',
                        params = [(''pattern'', Str ''(''), (''max'', Num 10),
                                  (''regex'', Bool True)]\<rparr>"
        and ?req2.0 = "\<lparr>url = ''/api/pv/matches'',
                        params = [(''pattern'', Str ''(''), (''max'', Num 20),
                                  (''regex'', Bool True)]\<rparr>"
        and rfirst = "remote_find_record_matches server_down (Some ''('') (Num 10) True remote_initial"
        and cfirst = "find_record_matches glob literal_RegExp (Inr two_iocs) (Some ''('') (Num 10)
                        True cached_initial"
        and ?net1.0 = server_down and ?net2.0 = server_down
        and ?max1.0 = "Num 10" and ?max2.0 = "Num 20"
        and ?fetch1.0 = "Inr two_iocs"
        and ?wcmatch1.0 = glob and ?RegExp1.0 = literal_RegExp
        and ?cmax1.0 = "Num 10" and err = SyntaxError, simplified, OF fresh(3) fresh(4)]
  have g: "remote_find_record_matches server_down (Some ''*'') (Num 20) False
     (fst (remote_find_record_matches server_up (Some ''*'') (Num 10) False remote_initial)) =
     (fst (remote_find_record_matches server_up (Some ''*'') (Num 10) False remote_initial), [],
      Inr (Arr [Str ''pv1'', Str ''pv2'']))"
    and g': "snd (snd (remote_find_record_matches server_up (Some ''*'') (Num 10) False remote_initial)) =
     Inr (Arr [Str ''pv1'', Str ''pv2''])"
    using glob_mode up by simp_all
  have c: "find_record_matches glob literal_RegExp (Inl NetworkError) (Some ''*'') (Num 20) False
     (fst (find_record_matches glob literal_RegExp (Inr two_iocs) (Some ''*'') (Num 10) False
             cached_initial)) =
     (fst (find_record_matches glob literal_RegExp (Inr two_iocs) (Some ''*'') (Num 10) False
             cached_initial), [], Inr (Value [''pv1'', ''pv2'', ''pv3'']))"
    using glob_mode snapshot by (simp add: ioc_matches_def unique_names_def plain_ioc_def)
  have r: "fst (snd (remote_find_record_matches server_down (Some ''('') (Num 20) True
               (fst (remote_find_record_matches server_down (Some ''('') (Num 10) True
                       remote_initial)))) =
     [\<lparr>url = ''/api/pv/matches'',
       params = [(''pattern'', Str ''(''), (''max'', Num 20), (''regex'', Bool True)]\<rparr>]"
    using regex_mode down by simp
  have m: "snd (snd (find_record_matches glob literal_RegExp (Inr two_iocs) (Some ''('') (Num 10) True
               cached_initial)) = Inr Nothing"
    and m': "regex_to_pvs (fst (find_record_matches glob literal_RegExp (Inr two_iocs) (Some ''('') (Num 10)
                        True cached_initial)) = []"
    using regex_mode malformed by (simp_all add: cached_initial_def)
  from fresh g g' c r m m' show ?thesis by simp
qed

text \<open>
  C5 fails on the code.  The snapshot search commits the deduplicated, sorted names to
  the cache but returns the list \<open>matches\<close> it collected: for the pattern \<open>*\<close> on the
  spec's two IOCs it returns \<open>pv2\<close> twice, while the entry it has committed is
  \<open>[pv1, pv2, pv3]\<close>.
\<close>

theorem find_record_matches_returns_raw_matches:
  "snd (snd (find_record_matches glob literal_RegExp (Inr two_iocs) (Some ''*'') Undefined False
               cached_initial)) = Inr (Value [''pv1'', ''pv2'', ''pv2'', ''pv3'']) \<and>
   glob_to_pvs (fst (find_record_matches glob literal_RegExp (Inr two_iocs) (Some ''*'') Undefined
                       False cached_initial)) = [(''*'', [''pv1'', ''pv2'', ''pv3''])]"
  by (simp add: find_defs store_defs sample_defs ioc_matches_def unique_names_def)

text \<open>
  C7, as the claim states it, fails: a search with an absent pattern returns
  \<open>undefined\<close> in both stores, whatever the snapshot or the server hold.
\<close>

theorem absent_pattern_finds_nothing:
  "find_record_matches glob literal_RegExp (Inr two_iocs) None Undefined False cached_initial =
     (cached_initial, [], Inr Nothing) \<and>
   remote_find_record_matches server_up None Undefined False remote_initial =
     (remote_initial, [], Inr Undefined)"
  by (simp add: find_defs)

text \<open>
  C7, amended.  With an absent pattern the search of either store returns \<open>undefined\<close>
  at once: no request, no state change.  With the empty pattern, not yet cached, the
  remote search sends exactly one request, whose pattern is \<open>.*\<close> in regex mode and
  \<open>*\<close> in glob mode.
\<close>

theorem absent_and_empty_pattern:
  "find_record_matches wcmatch RegExp fetch None cmax regex cstate = (cstate, [], Inr Nothing) \<and>
   remote_find_record_matches net None rmax regex rstate = (rstate, [], Inr Undefined) \<and>
   (\<not> has_key [] (if regex then remote_state.regex_to_pvs rstate
                    else remote_state.glob_to_pvs rstate) \<longrightarrow>
      fst (snd (remote_find_record_matches net (Some []) rmax regex rstate)) =
        [\<lparr>url = ''/api/pv/matches'',
          params = [(''pattern'', Str (if regex then ''.*'' else ''*'')), (''max'', rmax),
                    (''regex'', Bool regex)]\<rparr>])"
  by (auto simp: find_defs Let_def split: sum.splits)

text \<open>
  The theorem at a fresh remote store: the empty pattern is requested as \<open>.*\<close> in
  regex mode and as \<open>*\<close> in glob mode.
\<close>

theorem absent_and_empty_pattern_witness:
  "\<not> has_key [] (remote_state.regex_to_pvs remote_initial) \<and>
   fst (snd (remote_find_record_matches server_up (Some []) (Num 10) True remote_initial)) =
     [\<lparr>url = ''/api/pv/matches'',
       params = [(''pattern'', Str ''.*''), (''max'', Num 10), (''regex'', Bool True)]\<rparr>] \<and>
   \<not> has_key [] (remote_state.glob_to_pvs remote_initial) \<and>
   fst (snd (remote_find_record_matches server_up (Some []) (Num 10) False remote_initial)) =
     [\<lparr>url = ''/api/pv/matches'',
       params = [(''pattern'', Str ''*''), (''max'', Num 10), (''regex'', Bool False)]\<rparr>]"
proof -
  have a: "\<not> has_key [] (remote_state.regex_to_pvs remote_initial)"
    and b: "\<not> has_key [] (remote_state.glob_to_pvs remote_initial)"
    by (simp_all add: remote_initial_def lookup_defs)
  from absent_and_empty_pattern [of glob literal_RegExp "Inr two_iocs" "Num 10" True cached_initial server_up "Num 10" remote_initial]
    absent_and_empty_pattern [of glob literal_RegExp "Inr two_iocs" "Num 10" False cached_initial server_up "Num 10" remote_initial]
    a b
  show ?thesis by simp
qed

section \<open>The counter across an action\<close>

text \<open>
  C2 fails on the code.  The snapshot store's \<open>find_record_matches\<close> commits
  \<open>end_query\<close> in its \<open>finally\<close> but never commits \<open>start_query\<close>.  Entered while
  one other query is in flight (counter \<open>1\<close>, snapshot loaded), it leaves the counter at
  \<open>0\<close> and the flag \<open>false\<close>; the remote store's action of the same name, entered
  with the counter at \<open>1\<close>, leaves it at \<open>1\<close>.
\<close>

theorem find_record_matches_ends_unstarted_query:
  "queries_in_progress (start_query (set_cache two_iocs cached_initial)) = 1 \<and>
   queries_in_progress
     (fst (find_record_matches glob literal_RegExp (Inl NetworkError) (Some ''pv1'') Undefined False
             (start_query (set_cache two_iocs cached_initial)))) = 0 \<and>
   query_in_progress
     (fst (find_record_matches glob literal_RegExp (Inl NetworkError) (Some ''pv1'') Undefined False
             (start_query (set_cache two_iocs cached_initial)))) = False \<and>
   queries_in_progress
     (fst (remote_find_record_matches server_up (Some ''pv1'') Undefined False
             (start_query remote_initial))) = 1"
  by (simp add: find_defs store_defs sample_defs ioc_matches_def unique_names_def)

section \<open>Errors that reach the caller\<close>

text \<open>
  C3 fails on the code.  The remote \<open>get_record_info\<close> reads the unbound identifier
  \<open>record_name\<close> before its \<open>try\<close>: with no global of that name it raises a
  ReferenceError, whatever the state and the network.  The snapshot store's
  \<open>get_ioc_records\<close> has no \<open>try\<close>: for an IOC name that the snapshot does not have
  it raises a TypeError.
\<close>

theorem query_actions_raise:
  "remote_get_record_info None net state = (state, [], Inl ReferenceError) \<and>
   snd (snd (get_ioc_records (Inr two_iocs) ''C'' cached_initial)) = Inl TypeError"
  by (simp add: remote_get_record_info_def get_ioc_records_def store_defs sample_defs)

text \<open>
  C8 fails on the code.  When the download fails, \<open>load_cached_whatrecord_data\<close>
  answers \<open>{}\<close>, and each of the five actions then reads \<open>cache.iocs\<close> or
  \<open>cache.files\<close> as if it were there and raises a TypeError.  The same happens with
  a downloaded document that lacks \<open>iocs\<close>, or lacks \<open>files\<close>.
\<close>

theorem empty_snapshot_raises:
  "snd (snd (update_ioc_info (Inl NetworkError) cached_initial)) = Inl TypeError \<and>
   snd (snd (get_record_info (Inl NetworkError) ''pv1'' cached_initial)) = Inl TypeError \<and>
   snd (snd (update_duplicates (Inl NetworkError) cached_initial)) = Inl TypeError \<and>
   snd (snd (find_record_matches glob literal_RegExp (Inl NetworkError) (Some ''*'') Undefined False
               cached_initial)) = Inl TypeError \<and>
   snd (snd (get_file_info (Inl NetworkError) ''st.cmd'' cached_initial)) = Inl TypeError \<and>
   snd (snd (update_ioc_info (Inr no_iocs) cached_initial)) = Inl TypeError \<and>
   snd (snd (get_file_info (Inr no_files) ''st.cmd'' cached_initial)) = Inl TypeError"
  by (simp add: update_ioc_info_def get_record_info_def update_duplicates_def get_file_info_def
      find_defs store_defs sample_defs)

end
